theory Spec2Isabelle
  imports Main
begin

section \<open>The node registry of \<open>panel/app/routers/nodes.py\<close>\<close>

text \<open>
  The router has four handlers over one table of \<open>Node\<close> rows: \<open>create_node\<close> (register),
  \<open>list_nodes\<close>, \<open>get_node\<close> and \<open>delete_node\<close>. Every handler is modelled as a function
  from the table before the request to the handler's outcome and the table after it. An
  exception is a value \<open>Inl e\<close>; a request that raises commits nothing, so it leaves the
  table as it was. The clock reading \<open>datetime.utcnow()\<close> and the identifier drawn for a new
  row are inputs of \<open>create_node\<close>.
\<close>

subsection \<open>Data\<close>

text \<open>A \<open>datetime\<close> is a count of microseconds; a \<open>dict\<close> with string keys is a map.\<close>

type_synonym datetime = int

type_synonym 'v dict = "string \<rightharpoonup> 'v"

text \<open>
  The rows of the \<open>nodes\<close> table. The handlers read \<open>n.node_metadata or {}\<close>, so the column may
  hold no mapping at all (\<open>None\<close>).
\<close>

record 'v Node =
  id' :: string
  name :: string
  fingerprint :: string
  status :: string
  registered_at :: datetime
  last_seen :: datetime
  node_metadata :: "'v dict option"

text \<open>The request body of a registration: \<open>class NodeCreate(BaseModel)\<close>.\<close>

record 'v NodeCreate =
  name :: string
  fingerprint :: string
  metadata :: "'v dict"

text \<open>The serialised node: \<open>class NodeResponse(BaseModel)\<close>, whose \<open>metadata\<close> is a \<open>dict\<close>.\<close>

record 'v NodeResponse =
  id' :: string
  name :: string
  fingerprint :: string
  status :: string
  registered_at :: datetime
  last_seen :: datetime
  metadata :: "'v dict"

type_synonym 'v store = "'v Node list"

text \<open>
  What a handler can raise: the \<open>HTTPException\<close> of the source with its status code and
  detail, the \<open>AttributeError\<close> of a method call on \<open>None\<close>, and the \<open>MultipleResultsFound\<close> of
  \<open>scalar_one_or_none\<close>.
\<close>

datatype error = HTTPException nat string | AttributeError | MultipleResultsFound

subsection \<open>The collaborators the handlers call\<close>

text \<open>
  \<open>metadata: dict = {}\<close> in \<open>NodeCreate\<close>: a body without the field gets the empty mapping.
\<close>

definition NodeCreate_init :: "string \<Rightarrow> string \<Rightarrow> 'v dict option \<Rightarrow> 'v NodeCreate" where
  "NodeCreate_init nm fp md =
     \<lparr>NodeCreate.name = nm, fingerprint = fp,
      metadata = (case md of None \<Rightarrow> Map.empty | Some m \<Rightarrow> m)\<rparr>"

text \<open>
  Python's \<open>d or {}\<close>: \<open>None\<close> and the empty mapping are falsy and give the empty mapping, any
  other mapping is returned itself.
\<close>

definition or_empty :: "'v dict option \<Rightarrow> 'v dict" where
  "or_empty d = (case d of None \<Rightarrow> Map.empty | Some m \<Rightarrow> (if m = Map.empty then Map.empty else m))"

text \<open>\<open>Result.scalar_one_or_none()\<close>: no row, the one row, or an exception for several.\<close>

fun scalar_one_or_none :: "'a list \<Rightarrow> error + 'a option" where
  "scalar_one_or_none [] = Inr None"
| "scalar_one_or_none [x] = Inr (Some x)"
| "scalar_one_or_none (x # y # zs) = Inl MultipleResultsFound"

text \<open>
  Modelled from the spec: the \<open>Node\<close> class of \<open>app.models\<close> is not part of the sources. Its
  constructor is given the fields \<open>create_node\<close> passes; by the specification a new record
  gets a generated identifier and \<open>registered_at = last_seen = now\<close>. The identifier drawn
  and the clock reading are the first two arguments.
\<close>

definition Node_init :: "string \<Rightarrow> datetime \<Rightarrow> string \<Rightarrow> string \<Rightarrow> string \<Rightarrow> 'v dict \<Rightarrow> 'v Node" where
  "Node_init new_id now nm fp st md =
     \<lparr>Node.id' = new_id, name = nm, fingerprint = fp, status = st,
      registered_at = now, last_seen = now, node_metadata = Some md\<rparr>"

text \<open>
  What \<open>commit\<close> writes. A changed object, with a mapping updated in place, is written to
  the row of its identifier; a deleted object removes the row of its identifier; an added
  object is a new row.
\<close>

definition db_update :: "'v Node \<Rightarrow> 'v store \<Rightarrow> 'v store" where
  "db_update obj db = map (\<lambda>n. if Node.id' n = Node.id' obj then obj else n) db"

definition db_add :: "'v Node \<Rightarrow> 'v store \<Rightarrow> 'v store" where
  "db_add obj db = db @ [obj]"

definition db_delete :: "'v Node \<Rightarrow> 'v store \<Rightarrow> 'v store" where
  "db_delete obj db = filter (\<lambda>n. Node.id' n \<noteq> Node.id' obj) db"

subsection \<open>The handlers\<close>

text \<open>
  \<open>create_node\<close>: look the fingerprint up; refresh the row found, or add a new one. The
  in-place \<open>existing.node_metadata.update(node.metadata)\<close> is \<open>++\<close> on maps, and it raises
  when the column holds \<open>None\<close>.
\<close>

definition create_node ::
  "datetime \<Rightarrow> string \<Rightarrow> 'v NodeCreate \<Rightarrow> 'v store \<Rightarrow> (error + 'v Node) \<times> 'v store" where
  "create_node now new_id node db =
     (case scalar_one_or_none
             (filter (\<lambda>n. Node.fingerprint n = NodeCreate.fingerprint node) db) of
        Inl e \<Rightarrow> (Inl e, db)
      | Inr (Some existing) \<Rightarrow>
          (let existing = existing\<lparr>Node.last_seen := now\<rparr>;
               existing = existing\<lparr>Node.status := ''active''\<rparr>
           in if NodeCreate.metadata node \<noteq> Map.empty
              then (case node_metadata existing of
                      None \<Rightarrow> (Inl AttributeError, db)
                    | Some m \<Rightarrow>
                        (let existing =
                               existing\<lparr>node_metadata := Some (m ++ NodeCreate.metadata node)\<rparr>
                         in (Inr existing, db_update existing db)))
              else (Inr existing, db_update existing db))
      | Inr None \<Rightarrow>
          (let db_node = Node_init new_id now (NodeCreate.name node)
                           (NodeCreate.fingerprint node) ''active''
                           (or_empty (Some (NodeCreate.metadata node)))
           in (Inr db_node, db_add db_node db)))"

text \<open>The \<open>NodeResponse(...)\<close> that \<open>list_nodes\<close> and \<open>get_node\<close> build field by field.\<close>

definition to_response :: "'v Node \<Rightarrow> 'v NodeResponse" where
  "to_response n =
     \<lparr>NodeResponse.id' = Node.id' n,
      name = Node.name n,
      fingerprint = Node.fingerprint n,
      status = Node.status n,
      registered_at = Node.registered_at n,
      last_seen = Node.last_seen n,
      metadata = or_empty (node_metadata n)\<rparr>"

definition list_nodes :: "'v store \<Rightarrow> 'v NodeResponse list \<times> 'v store" where
  "list_nodes db = (map to_response db, db)"

definition get_node :: "string \<Rightarrow> 'v store \<Rightarrow> (error + 'v NodeResponse) \<times> 'v store" where
  "get_node node_id db =
     (case scalar_one_or_none (filter (\<lambda>n. Node.id' n = node_id) db) of
        Inl e \<Rightarrow> (Inl e, db)
      | Inr None \<Rightarrow> (Inl (HTTPException 404 ''Node not found''), db)
      | Inr (Some node) \<Rightarrow> (Inr (to_response node), db))"

definition delete_node :: "string \<Rightarrow> 'v store \<Rightarrow> (error + string dict) \<times> 'v store" where
  "delete_node node_id db =
     (case scalar_one_or_none (filter (\<lambda>n. Node.id' n = node_id) db) of
        Inl e \<Rightarrow> (Inl e, db)
      | Inr None \<Rightarrow> (Inl (HTTPException 404 ''Node not found''), db)
      | Inr (Some node) \<Rightarrow> (Inr [''status'' \<mapsto> ''deleted''], db_delete node db))"

subsection \<open>Sequences of requests\<close>

text \<open>
  A request of the surface, with what the environment supplies to it: \<open>Register\<close> carries
  the clock reading and the identifier drawn for a new row.
\<close>

datatype 'v call =
    Register datetime string "'v NodeCreate"
  | ListNodes
  | GetById string
  | DeleteById string

text \<open>The table after one request, and after a list of requests handled one after another.\<close>

fun step :: "'v call \<Rightarrow> 'v store \<Rightarrow> 'v store" where
  "step (Register now new_id node) db = snd (create_node now new_id node db)"
| "step ListNodes db = snd (list_nodes db)"
| "step (GetById node_id) db = snd (get_node node_id db)"
| "step (DeleteById node_id) db = snd (delete_node node_id db)"

fun run :: "'v call list \<Rightarrow> 'v store \<Rightarrow> 'v store" where
  "run [] db = db"
| "run (c # cs) db = run cs (step c db)"

text \<open>
  The identifier generator does its work along a run: whenever a registration finds no row
  with its fingerprint, the identifier drawn for the new row is held by no stored row.
\<close>

fun fresh_ids :: "'v call list \<Rightarrow> 'v store \<Rightarrow> bool" where
  "fresh_ids [] db = True"
| "fresh_ids (Register now new_id node # cs) db =
     ((filter (\<lambda>n. Node.fingerprint n = NodeCreate.fingerprint node) db = []
         \<longrightarrow> new_id \<notin> set (map Node.id' db))
      \<and> fresh_ids cs (step (Register now new_id node) db))"
| "fresh_ids (c # cs) db = fresh_ids cs (step c db)"

text \<open>The clock readings of a run, in the order they are taken.\<close>

fun clock :: "'v call list \<Rightarrow> datetime list" where
  "clock [] = []"
| "clock (Register now new_id node # cs) = now # clock cs"
| "clock (c # cs) = clock cs"

text \<open>Registrations one after another, keeping what each call returned.\<close>

fun register_all ::
  "(datetime \<times> string \<times> 'v NodeCreate) list \<Rightarrow> 'v store
     \<Rightarrow> (error + 'v Node) list \<times> 'v store" where
  "register_all [] db = ([], db)"
| "register_all ((now, new_id, node) # rest) db =
     (case create_node now new_id node db of
        (r, db') \<Rightarrow> (case register_all rest db' of (rs, db'') \<Rightarrow> (r # rs, db'')))"

text \<open>A serialised node and a row carry the same record: they agree on every field.\<close>

definition same_record :: "'v NodeResponse \<Rightarrow> 'v Node \<Rightarrow> bool" where
  "same_record r n \<longleftrightarrow>
     NodeResponse.id' r = Node.id' n \<and>
     NodeResponse.name r = Node.name n \<and>
     NodeResponse.fingerprint r = Node.fingerprint n \<and>
     NodeResponse.status r = Node.status n \<and>
     NodeResponse.registered_at r = Node.registered_at n \<and>
     NodeResponse.last_seen r = Node.last_seen n \<and>
     Some (NodeResponse.metadata r) = node_metadata n"

text \<open>A serialised node renders a row: the fields of the row, and no mapping as the empty one.\<close>

definition serialises :: "'v NodeResponse \<Rightarrow> 'v Node \<Rightarrow> bool" where
  "serialises r n \<longleftrightarrow>
     NodeResponse.id' r = Node.id' n \<and>
     NodeResponse.name r = Node.name n \<and>
     NodeResponse.fingerprint r = Node.fingerprint n \<and>
     NodeResponse.status r = Node.status n \<and>
     NodeResponse.registered_at r = Node.registered_at n \<and>
     NodeResponse.last_seen r = Node.last_seen n \<and>
     NodeResponse.metadata r = (case node_metadata n of None \<Rightarrow> Map.empty | Some m \<Rightarrow> m)"

text \<open>The row a registration under a fingerprint not yet stored adds.\<close>

definition new_row :: "datetime \<times> string \<times> 'v NodeCreate \<Rightarrow> 'v Node" where
  "new_row reg =
     (case reg of (now, new_id, node) \<Rightarrow>
        Node_init new_id now (NodeCreate.name node) (NodeCreate.fingerprint node) ''active''
          (NodeCreate.metadata node))"

text \<open>
  Time stamps in order: every row was registered no later than it was last seen, and was
  last seen no later than \<open>t\<close>.
\<close>

definition stamps_ok :: "datetime \<Rightarrow> 'v store \<Rightarrow> bool" where
  "stamps_ok t db \<longleftrightarrow>
     (\<forall>n \<in> set db. Node.registered_at n \<le> Node.last_seen n \<and> Node.last_seen n \<le> t)"

subsection \<open>Sample requests and rows\<close>

text \<open>
  The requests of the specification's end-to-end scenario, a request under a second
  fingerprint, the rows they leave, and a row whose metadata column holds no mapping.
\<close>

definition fp1_first :: "string NodeCreate" where
  "fp1_first =
     \<lparr>NodeCreate.name = ''n1'', fingerprint = ''fp1'', metadata = [''zone'' \<mapsto> ''a'']\<rparr>"

definition fp1_second :: "string NodeCreate" where
  "fp1_second =
     \<lparr>NodeCreate.name = ''n1-renamed'', fingerprint = ''fp1'',
      metadata = [''rack'' \<mapsto> ''5'']\<rparr>"

definition fp2_first :: "string NodeCreate" where
  "fp2_first = \<lparr>NodeCreate.name = ''n2'', fingerprint = ''fp2'', metadata = Map.empty\<rparr>"

definition fp0_bare :: "string NodeCreate" where
  "fp0_bare = \<lparr>NodeCreate.name = ''n0'', fingerprint = ''fp0'', metadata = Map.empty\<rparr>"

definition fp0_tagged :: "string NodeCreate" where
  "fp0_tagged =
     \<lparr>NodeCreate.name = ''n0'', fingerprint = ''fp0'', metadata = [''zone'' \<mapsto> ''b'']\<rparr>"

definition row1 :: "string Node" where
  "row1 =
     \<lparr>Node.id' = ''id1'', name = ''n1'', fingerprint = ''fp1'', status = ''active'',
      registered_at = 10, last_seen = 10, node_metadata = Some [''zone'' \<mapsto> ''a'']\<rparr>"

definition row2 :: "string Node" where
  "row2 =
     \<lparr>Node.id' = ''id2'', name = ''n2'', fingerprint = ''fp2'', status = ''active'',
      registered_at = 20, last_seen = 20, node_metadata = Some Map.empty\<rparr>"

definition null_row :: "string Node" where
  "null_row =
     \<lparr>Node.id' = ''id0'', name = ''n0'', fingerprint = ''fp0'', status = ''active'',
      registered_at = 5, last_seen = 5, node_metadata = None\<rparr>"

definition row1_merged :: "string Node" where
  "row1_merged =
     \<lparr>Node.id' = ''id1'', name = ''n1'', fingerprint = ''fp1'', status = ''active'',
      registered_at = 10, last_seen = 30,
      node_metadata = Some [''zone'' \<mapsto> ''a'', ''rack'' \<mapsto> ''5'']\<rparr>"

text \<open>
  A run: two registrations under new fingerprints, a re-registration, the two reads, and
  the deletion of the second node.
\<close>

definition scenario :: "string call list" where
  "scenario =
     [Register 10 ''id1'' fp1_first, Register 20 ''id2'' fp2_first,
      Register 30 ''id3'' fp1_second, ListNodes, GetById ''id1'', DeleteById ''id2'']"

section \<open>Properties\<close>

subsection \<open>Lookups\<close>

lemma or_empty_Some [simp]: "or_empty (Some m) = m"
  by (simp add: or_empty_def)

lemma or_empty_None [simp]: "or_empty None = Map.empty"
  by (simp add: or_empty_def)

lemma only_row_member:
  assumes "filter P xs = [x]"
  shows "x \<in> set xs" and "P x"
proof -
  from assms have "x \<in> set (filter P xs)" by simp
  then show "x \<in> set xs" and "P x" by simp_all
qed

lemma filter_only_remove1:
  "filter P xs = [x] \<Longrightarrow> filter (\<lambda>y. \<not> P y) xs = remove1 x xs"
proof (induction xs)
  case Nil
  then show ?case by simp
next
  case (Cons a xs)
  show ?case
  proof (cases "P a")
    case True
    with Cons.prems have "a = x" and "filter P xs = []" by simp_all
    then have "filter (\<lambda>y. \<not> P y) xs = xs" by (simp add: filter_empty_conv)
    with True \<open>a = x\<close> show ?thesis by simp
  next
    case False
    with Cons.prems have one: "filter P xs = [x]" by simp
    then have "P x" by (rule only_row_member)
    with one show ?thesis using False Cons.IH by auto
  qed
qed

lemma distinct_only_row:
  "distinct (map f xs) \<Longrightarrow> x \<in> set xs \<Longrightarrow> filter (\<lambda>y. f y = f x) xs = [x]"
proof (induction xs)
  case Nil
  then show ?case by simp
next
  case (Cons a xs)
  show ?case
  proof (cases "a = x")
    case True
    with Cons.prems have "f x \<notin> f ` set xs" by simp
    then have "\<forall>y \<in> set xs. f y \<noteq> f x" by (metis imageI)
    then have "filter (\<lambda>y. f y = f x) xs = []" by (simp add: filter_empty_conv)
    with True show ?thesis by simp
  next
    case False
    with Cons.prems have "x \<in> set xs" and "f a \<notin> f ` set xs" by simp_all
    then have "f a \<noteq> f x" by (metis imageI)
    with Cons False show ?thesis by simp
  qed
qed

lemma distinct_map_count:
  "distinct (map f xs) \<Longrightarrow> length (filter (\<lambda>x. f x = y) xs) \<le> 1"
proof (induction xs)
  case Nil
  then show ?case by simp
next
  case (Cons a xs)
  show ?case
  proof (cases "f a = y")
    case True
    with Cons.prems have "y \<notin> f ` set xs" by simp
    then have "\<forall>x \<in> set xs. f x \<noteq> y" by blast
    then have "filter (\<lambda>x. f x = y) xs = []" by (simp add: filter_empty_conv)
    with True show ?thesis by simp
  next
    case False
    with Cons show ?thesis by simp
  qed
qed

lemma get_node_store: "snd (get_node node_id db) = db"
  by (simp add: get_node_def split: sum.splits option.splits)

lemma get_node_absent:
  "fst (get_node node_id db) = Inl (HTTPException 404 ''Node not found'')
     \<longleftrightarrow> (\<forall>n \<in> set db. Node.id' n \<noteq> node_id)"
proof -
  define rows where "rows = filter (\<lambda>n. Node.id' n = node_id) db"
  have absent: "(\<forall>n \<in> set db. Node.id' n \<noteq> node_id) \<longleftrightarrow> rows = []"
    by (auto simp: rows_def filter_empty_conv)
  have "fst (get_node node_id db) = Inl (HTTPException 404 ''Node not found'') \<longleftrightarrow> rows = []"
    unfolding get_node_def rows_def [symmetric]
    by (cases rows rule: scalar_one_or_none.cases) simp_all
  with absent show ?thesis by simp
qed

lemma to_response_serialises: "serialises (to_response n) n"
  by (cases "node_metadata n") (simp_all add: serialises_def to_response_def)

subsection \<open>The branches of \<open>create_node\<close>\<close>

lemma create_node_new:
  assumes "filter (\<lambda>n. Node.fingerprint n = NodeCreate.fingerprint node) db = []"
  shows "create_node now new_id node db =
           (Inr (Node_init new_id now (NodeCreate.name node) (NodeCreate.fingerprint node)
                   ''active'' (NodeCreate.metadata node)),
            db @ [Node_init new_id now (NodeCreate.name node) (NodeCreate.fingerprint node)
                   ''active'' (NodeCreate.metadata node)])"
  using assms by (simp add: create_node_def db_add_def Let_def)

lemma create_node_existing:
  assumes "filter (\<lambda>n. Node.fingerprint n = NodeCreate.fingerprint node) db = [existing]"
    and "node_metadata existing = Some m"
  shows "create_node now new_id node db =
           (Inr (existing\<lparr>Node.last_seen := now, Node.status := ''active'',
                          node_metadata := Some (m ++ NodeCreate.metadata node)\<rparr>),
            db_update (existing\<lparr>Node.last_seen := now, Node.status := ''active'',
                          node_metadata := Some (m ++ NodeCreate.metadata node)\<rparr>) db)"
proof (cases "NodeCreate.metadata node = Map.empty")
  case True
  have same: "existing\<lparr>Node.last_seen := now, Node.status := ''active'',
                        node_metadata := Some m\<rparr>
        = existing\<lparr>Node.last_seen := now, Node.status := ''active''\<rparr>"
    using assms(2) by (cases existing) simp
  show ?thesis using True assms by (simp add: create_node_def Let_def same)
next
  case False
  with assms show ?thesis by (simp add: create_node_def Let_def)
qed

lemma create_node_null_empty:
  assumes "filter (\<lambda>n. Node.fingerprint n = NodeCreate.fingerprint node) db = [existing]"
    and "node_metadata existing = None" and "NodeCreate.metadata node = Map.empty"
  shows "create_node now new_id node db =
           (Inr (existing\<lparr>Node.last_seen := now, Node.status := ''active''\<rparr>),
            db_update (existing\<lparr>Node.last_seen := now, Node.status := ''active''\<rparr>) db)"
  using assms by (simp add: create_node_def Let_def)

lemma create_node_null_raises:
  assumes "filter (\<lambda>n. Node.fingerprint n = NodeCreate.fingerprint node) db = [existing]"
    and "node_metadata existing = None" and "NodeCreate.metadata node \<noteq> Map.empty"
  shows "create_node now new_id node db = (Inl AttributeError, db)"
  using assms by (simp add: create_node_def Let_def)

lemma create_node_several:
  assumes "filter (\<lambda>n. Node.fingerprint n = NodeCreate.fingerprint node) db = x # y # zs"
  shows "create_node now new_id node db = (Inl MultipleResultsFound, db)"
  using assms by (simp add: create_node_def)

subsection \<open>Writing a changed row\<close>

lemma length_db_update: "length (db_update obj db) = length db"
  by (simp add: db_update_def)

lemma ids_db_update: "map Node.id' (db_update obj db) = map Node.id' db"
  by (simp add: db_update_def)

lemma set_db_update: "set (db_update obj db) \<subseteq> insert obj (set db)"
  by (auto simp: db_update_def)

lemma db_update_nth:
  assumes "distinct (map Node.id' db)" and "existing \<in> set db"
    and "Node.id' obj = Node.id' existing" and "i < length db"
  shows "db_update obj db ! i = (if db ! i = existing then obj else db ! i)"
proof -
  from assms(1) have inj: "inj_on Node.id' (set db)"
    by (simp add: distinct_map)
  from assms(4) have "db ! i \<in> set db" by simp
  with inj assms(2) have "Node.id' (db ! i) = Node.id' existing \<longleftrightarrow> db ! i = existing"
    by (auto dest: inj_onD)
  with assms(3,4) show ?thesis by (simp add: db_update_def)
qed

lemma fingerprints_db_update:
  assumes "distinct (map Node.id' db)" and "existing \<in> set db"
    and "Node.id' obj = Node.id' existing"
    and "Node.fingerprint obj = Node.fingerprint existing"
  shows "map Node.fingerprint (db_update obj db) = map Node.fingerprint db"
proof (rule nth_equalityI)
  show "length (map Node.fingerprint (db_update obj db)) = length (map Node.fingerprint db)"
    by (simp add: length_db_update)
next
  fix i assume "i < length (map Node.fingerprint (db_update obj db))"
  then have i: "i < length db" by (simp add: length_db_update)
  then show "map Node.fingerprint (db_update obj db) ! i = map Node.fingerprint db ! i"
    using db_update_nth [OF assms(1,2,3) i] assms(4) by (simp add: length_db_update)
qed

section \<open>The claims\<close>

subsection \<open>Reading\<close>

text \<open>
  C10: \<open>list_nodes\<close> and \<open>get_node\<close> never modify the store. For every table and every
  identifier, whether or not a row has it, the table after the call is the table before it.
\<close>

theorem reads_keep_store:
  "snd (list_nodes db) = db \<and> snd (get_node node_id db) = db"
  by (simp add: list_nodes_def get_node_store)

text \<open>
  C5: when \<open>n\<close> is the one row with the identifier asked for, \<open>get_node\<close> returns the
  serialisation of \<open>n\<close>. It raises the 404 \<open>HTTPException\<close> with the detail
  \<open>Node not found\<close> exactly when no row has that identifier, and then the table is as
  before. Where identifiers are distinct (the primary key), a row with the identifier is
  the one row with it.
\<close>

theorem get_node_result:
  "(filter (\<lambda>n. Node.id' n = node_id) db = [n] \<longrightarrow>
      get_node node_id db = (Inr (to_response n), db) \<and> serialises (to_response n) n) \<and>
   (fst (get_node node_id db) = Inl (HTTPException 404 ''Node not found'')
      \<longleftrightarrow> (\<forall>n \<in> set db. Node.id' n \<noteq> node_id)) \<and>
   ((\<forall>n \<in> set db. Node.id' n \<noteq> node_id) \<longrightarrow>
      get_node node_id db = (Inl (HTTPException 404 ''Node not found''), db)) \<and>
   (distinct (map Node.id' db) \<and> n \<in> set db \<and> Node.id' n = node_id \<longrightarrow>
      filter (\<lambda>n. Node.id' n = node_id) db = [n])"
proof (intro conjI impI)
  assume "filter (\<lambda>n. Node.id' n = node_id) db = [n]"
  then show "get_node node_id db = (Inr (to_response n), db)"
    by (simp add: get_node_def)
next
  assume "distinct (map Node.id' db) \<and> n \<in> set db \<and> Node.id' n = node_id"
  then show "filter (\<lambda>n. Node.id' n = node_id) db = [n]"
    using distinct_only_row [of Node.id' db n] by auto
next
  show "serialises (to_response n) n"
    by (rule to_response_serialises)
next
  show "fst (get_node node_id db) = Inl (HTTPException 404 ''Node not found'')
      \<longleftrightarrow> (\<forall>n \<in> set db. Node.id' n \<noteq> node_id)"
    by (rule get_node_absent)
next
  assume "\<forall>n \<in> set db. Node.id' n \<noteq> node_id"
  then have "filter (\<lambda>n. Node.id' n = node_id) db = []"
    by (simp add: filter_empty_conv)
  then show "get_node node_id db = (Inl (HTTPException 404 ''Node not found''), db)"
    by (simp add: get_node_def)
qed

theorem get_node_result_witness:
  "distinct (map Node.id' [row1, row2]) \<and>
   filter (\<lambda>n. Node.id' n = ''id1'') [row1, row2] = [row1] \<and>
   get_node ''id1'' [row1, row2] = (Inr (to_response row1), [row1, row2]) \<and>
   serialises (to_response row1) row1 \<and>
   Node.id' row1 \<noteq> ''id9'' \<and> Node.id' row2 \<noteq> ''id9'' \<and>
   get_node ''id9'' [row1, row2] = (Inl (HTTPException 404 ''Node not found''), [row1, row2])"
proof -
  have found: "filter (\<lambda>n. Node.id' n = ''id1'') [row1, row2] = [row1]"
    by (simp add: row1_def row2_def)
  have absent: "\<forall>n \<in> set [row1, row2]. Node.id' n \<noteq> ''id9''"
    by (simp add: row1_def row2_def)
  have ids: "distinct (map Node.id' [row1, row2])"
    by (simp add: row1_def row2_def)
  from get_node_result [of "''id1''" "[row1, row2]" row1] found
    get_node_result [of "''id9''" "[row1, row2]" row1] absent ids
  show ?thesis by simp
qed

subsection \<open>Deleting\<close>

text \<open>
  C4: when no row has the identifier, \<open>delete_node\<close> raises the 404 \<open>HTTPException\<close> with the
  detail \<open>Node not found\<close> and the table is as before. When \<open>n\<close> is the one row with that
  identifier, \<open>delete_node\<close> removes exactly \<open>n\<close> and returns \<open>{"status": "deleted"}\<close>;
  afterwards \<open>get_node\<close> on the identifier raises the same exception and no listed record
  has the identifier. Where identifiers are distinct (the primary key), a row with the
  identifier is the one row with it.
\<close>

theorem delete_node_result:
  "((\<forall>n \<in> set db. Node.id' n \<noteq> node_id) \<longrightarrow>
      delete_node node_id db = (Inl (HTTPException 404 ''Node not found''), db)) \<and>
   (filter (\<lambda>n. Node.id' n = node_id) db = [n] \<longrightarrow>
      delete_node node_id db = (Inr [''status'' \<mapsto> ''deleted''], remove1 n db) \<and>
      fst (get_node node_id (remove1 n db)) = Inl (HTTPException 404 ''Node not found'') \<and>
      (\<forall>r \<in> set (fst (list_nodes (remove1 n db))). NodeResponse.id' r \<noteq> node_id)) \<and>
   (distinct (map Node.id' db) \<and> n \<in> set db \<and> Node.id' n = node_id \<longrightarrow>
      filter (\<lambda>n. Node.id' n = node_id) db = [n])"
proof (intro conjI impI)
  assume "\<forall>n \<in> set db. Node.id' n \<noteq> node_id"
  then have "filter (\<lambda>n. Node.id' n = node_id) db = []"
    by (simp add: filter_empty_conv)
  then show "delete_node node_id db = (Inl (HTTPException 404 ''Node not found''), db)"
    by (simp add: delete_node_def)
next
  assume "distinct (map Node.id' db) \<and> n \<in> set db \<and> Node.id' n = node_id"
  then show "filter (\<lambda>n. Node.id' n = node_id) db = [n]"
    using distinct_only_row [of Node.id' db n] by auto
next
  assume one: "filter (\<lambda>n. Node.id' n = node_id) db = [n]"
  then have idn: "Node.id' n = node_id" by (rule only_row_member)
  from one have rest: "filter (\<lambda>m. Node.id' m \<noteq> node_id) db = remove1 n db"
    by (rule filter_only_remove1)
  with one idn show "delete_node node_id db = (Inr [''status'' \<mapsto> ''deleted''], remove1 n db)"
    by (simp add: delete_node_def db_delete_def)
  have gone: "\<forall>m \<in> set (remove1 n db). Node.id' m \<noteq> node_id"
  proof
    fix m assume "m \<in> set (remove1 n db)"
    with rest have "m \<in> set (filter (\<lambda>m. Node.id' m \<noteq> node_id) db)" by simp
    then show "Node.id' m \<noteq> node_id" by simp
  qed
  then show "fst (get_node node_id (remove1 n db)) = Inl (HTTPException 404 ''Node not found'')"
    by (simp add: get_node_absent)
  from gone show "\<forall>r \<in> set (fst (list_nodes (remove1 n db))). NodeResponse.id' r \<noteq> node_id"
    by (auto simp: list_nodes_def to_response_def)
qed

theorem delete_node_result_witness:
  "distinct (map Node.id' [row1, row2]) \<and>
   filter (\<lambda>n. Node.id' n = ''id1'') [row1, row2] = [row1] \<and>
   delete_node ''id1'' [row1, row2] = (Inr [''status'' \<mapsto> ''deleted''], [row2]) \<and>
   fst (get_node ''id1'' [row2]) = Inl (HTTPException 404 ''Node not found'') \<and>
   map NodeResponse.id' (fst (list_nodes [row2])) = [''id2''] \<and>
   Node.id' row1 \<noteq> ''id9'' \<and> Node.id' row2 \<noteq> ''id9'' \<and>
   delete_node ''id9'' [row1, row2] = (Inl (HTTPException 404 ''Node not found''), [row1, row2])"
proof -
  have found: "filter (\<lambda>n. Node.id' n = ''id1'') [row1, row2] = [row1]"
    by (simp add: row1_def row2_def)
  have absent: "\<forall>n \<in> set [row1, row2]. Node.id' n \<noteq> ''id9''"
    by (simp add: row1_def row2_def)
  have left: "remove1 row1 [row1, row2] = [row2]" by simp
  have listed: "map NodeResponse.id' (fst (list_nodes [row2])) = [''id2'']"
    by (simp add: list_nodes_def to_response_def row2_def)
  have ids: "distinct (map Node.id' [row1, row2])"
    by (simp add: row1_def row2_def)
  from delete_node_result [of "[row1, row2]" "''id1''" row1] found
    delete_node_result [of "[row1, row2]" "''id9''" row1] absent listed ids
  show ?thesis unfolding left by simp
qed

subsection \<open>Registering a new fingerprint\<close>

text \<open>
  C2: when no stored row has the fingerprint of the request, \<open>create_node\<close> adds and returns
  a new row. The row carries the identifier generated for it, the name and fingerprint of
  the request, the status \<open>active\<close>, \<open>registered_at\<close> equal to \<open>last_seen\<close> (both the clock
  reading), and the mapping of the request as its metadata; a request body without
  metadata has the empty mapping.
\<close>

theorem first_registration_creates:
  assumes "\<forall>n \<in> set db. Node.fingerprint n \<noteq> NodeCreate.fingerprint node"
  shows "(\<exists>r. create_node now new_id node db = (Inr r, db @ [r]) \<and>
              Node.id' r = new_id \<and>
              Node.name r = NodeCreate.name node \<and>
              Node.fingerprint r = NodeCreate.fingerprint node \<and>
              Node.status r = ''active'' \<and>
              Node.registered_at r = now \<and>
              Node.last_seen r = Node.registered_at r \<and>
              node_metadata r = Some (NodeCreate.metadata node)) \<and>
         NodeCreate.metadata (NodeCreate_init nm fp None) = Map.empty \<and>
         NodeCreate.metadata (NodeCreate_init nm fp (Some md)) = md"
proof -
  from assms have "filter (\<lambda>n. Node.fingerprint n = NodeCreate.fingerprint node) db = []"
    by (simp add: filter_empty_conv)
  then have "\<exists>r. create_node now new_id node db = (Inr r, db @ [r]) \<and>
              Node.id' r = new_id \<and>
              Node.name r = NodeCreate.name node \<and>
              Node.fingerprint r = NodeCreate.fingerprint node \<and>
              Node.status r = ''active'' \<and>
              Node.registered_at r = now \<and>
              Node.last_seen r = Node.registered_at r \<and>
              node_metadata r = Some (NodeCreate.metadata node)"
    by (simp add: create_node_new Node_init_def)
  then show ?thesis by (simp add: NodeCreate_init_def)
qed

theorem first_registration_creates_witness:
  "Node.fingerprint row1 \<noteq> NodeCreate.fingerprint fp2_first \<and>
   create_node 20 ''id2'' fp2_first [row1] = (Inr row2, [row1, row2])"
proof -
  have unseen: "\<forall>n \<in> set [row1]. Node.fingerprint n \<noteq> NodeCreate.fingerprint fp2_first"
    by (simp add: row1_def fp2_first_def)
  from first_registration_creates [OF unseen, of 20 "''id2''"]
  obtain r where r: "create_node 20 ''id2'' fp2_first [row1] = (Inr r, [row1] @ [r])"
    "Node.id' r = ''id2''" "Node.name r = NodeCreate.name fp2_first"
    "Node.fingerprint r = NodeCreate.fingerprint fp2_first"
    "Node.status r = ''active''" "Node.registered_at r = 20"
    "Node.last_seen r = Node.registered_at r"
    "node_metadata r = Some (NodeCreate.metadata fp2_first)"
    by blast
  then have "r = row2" by (cases r) (simp add: row2_def fp2_first_def)
  with r(1) unseen show ?thesis by simp
qed

subsection \<open>Re-registering a known fingerprint\<close>

text \<open>
  What the re-registration path does to a row that holds a mapping: the row found is
  returned with the status \<open>active\<close>, \<open>last_seen\<close> set to the clock reading and the
  request's mapping merged over its own, key by key.
\<close>

lemma re_registration_merges:
  assumes "filter (\<lambda>n. Node.fingerprint n = NodeCreate.fingerprint node) db = [existing]"
    and "node_metadata existing = Some m"
  shows "\<exists>r m'. create_node now new_id node db = (Inr r, db_update r db) \<and>
           r = existing\<lparr>Node.last_seen := now, Node.status := ''active'',
                          node_metadata := Some m'\<rparr> \<and>
           (\<forall>k. m' k = (case NodeCreate.metadata node k of Some v \<Rightarrow> Some v | None \<Rightarrow> m k))"
proof -
  have "\<forall>k. (m ++ NodeCreate.metadata node) k
          = (case NodeCreate.metadata node k of Some v \<Rightarrow> Some v | None \<Rightarrow> m k)"
    by (simp add: map_add_def split: option.split)
  with create_node_existing [OF assms] show ?thesis by blast
qed

text \<open>
  Two registrations under one fingerprint, the first on a table without it: one row is
  added, and after the second call it holds the union of the two mappings, the second
  call's values on the keys both have.
\<close>

lemma register_twice:
  assumes unseen: "\<forall>n \<in> set db. Node.fingerprint n \<noteq> fp"
    and fresh: "new_id \<notin> set (map Node.id' db)"
    and fp: "NodeCreate.fingerprint node1 = fp" "NodeCreate.fingerprint node2 = fp"
    and first: "create_node t1 new_id node1 db = (res1, db1)"
    and second: "create_node t2 other_id node2 db1 = (res2, db2)"
  shows "\<exists>r. res2 = Inr r \<and> db2 = db @ [r] \<and>
           node_metadata r = Some (NodeCreate.metadata node1 ++ NodeCreate.metadata node2) \<and>
           Node.id' r = new_id \<and> Node.name r = NodeCreate.name node1 \<and>
           Node.registered_at r = t1 \<and> Node.last_seen r = t2"
proof -
  define r1 where "r1 = Node_init new_id t1 (NodeCreate.name node1) fp ''active''
    (NodeCreate.metadata node1)"
  from unseen have none: "filter (\<lambda>n. Node.fingerprint n = fp) db = []"
    by (simp add: filter_empty_conv)
  with first fp(1) have db1: "db1 = db @ [r1]"
    by (simp add: create_node_new r1_def)
  have r1: "Node.fingerprint r1 = fp" "Node.id' r1 = new_id"
    "node_metadata r1 = Some (NodeCreate.metadata node1)"
    by (simp_all add: r1_def Node_init_def)
  from none r1(1) have one: "filter (\<lambda>n. Node.fingerprint n = NodeCreate.fingerprint node2) db1 = [r1]"
    by (simp add: db1 fp(2))
  define r2 where "r2 = r1\<lparr>Node.last_seen := t2, Node.status := ''active'',
    node_metadata := Some (NodeCreate.metadata node1 ++ NodeCreate.metadata node2)\<rparr>"
  from create_node_existing [OF one r1(3), of t2 other_id] second
  have res2: "res2 = Inr r2" and db2: "db2 = db_update r2 db1"
    by (simp_all add: r2_def)
  from fresh have "\<forall>n \<in> set db. Node.id' n \<noteq> new_id" by auto
  then have keep: "map (\<lambda>n. if Node.id' n = new_id then obj else n) db = db" for obj
    by (simp add: map_idI)
  have "Node.id' r2 = new_id" by (simp add: r2_def r1(2))
  then have "db_update r2 db1 = db @ [r2]"
    by (simp add: db_update_def db1 r1(2) keep)
  with res2 db2 show ?thesis
    by (simp add: r2_def r1_def Node_init_def)
qed

text \<open>
  C1: for every stored node, a registration under its fingerprint sets the status and
  \<open>last_seen\<close>, merges the metadata and returns the updated record. The handler does not do
  so for a stored node whose metadata column holds no mapping: given metadata to merge, it
  raises \<open>AttributeError\<close> on \<open>existing.node_metadata.update\<close> and nothing is written.
\<close>

theorem re_registration_null_metadata_raises:
  "filter (\<lambda>n. Node.fingerprint n = NodeCreate.fingerprint fp0_tagged) [null_row] = [null_row] \<and>
   create_node 30 ''id3'' fp0_tagged [null_row] = (Inl AttributeError, [null_row])"
  by (simp add: create_node_def fp0_tagged_def null_row_def)

text \<open>
  C9: the metadata of a record returned by \<open>create_node\<close>, \<open>list_nodes\<close> or \<open>get_node\<close> is
  never null. \<open>list_nodes\<close> and \<open>get_node\<close> build their records with
  \<open>node_metadata or {}\<close> (\<open>to_response_serialises\<close>); \<open>create_node\<close> returns the row itself,
  and for a stored node without a mapping and a request without metadata that row still
  has none.
\<close>

theorem re_registration_returns_null_metadata:
  "create_node 30 ''id3'' fp0_bare [null_row]
     = (Inr (null_row\<lparr>Node.last_seen := 30\<rparr>), [null_row\<lparr>Node.last_seen := 30\<rparr>]) \<and>
   node_metadata (null_row\<lparr>Node.last_seen := 30\<rparr>) = None \<and>
   NodeResponse.metadata (to_response null_row) = Map.empty"
  by (simp add: create_node_def db_update_def fp0_bare_def null_row_def to_response_def Let_def)

text \<open>
  C6: a registration under the fingerprint of a stored row leaves the name, identifier,
  fingerprint and \<open>registered_at\<close> of that row as they were, whatever name the request
  carries, and leaves every other stored row unchanged. Identifiers name rows (the
  primary key), and the statement covers the calls that raise as well.
\<close>

theorem re_registration_frame:
  assumes ids: "distinct (map Node.id' db)"
    and mem: "existing \<in> set db"
    and fp: "Node.fingerprint existing = NodeCreate.fingerprint node"
    and call: "create_node now new_id node db = (res, db')"
  shows "length db' = length db \<and>
         (\<forall>i < length db. db ! i \<noteq> existing \<longrightarrow> db' ! i = db ! i) \<and>
         (\<forall>i < length db. db ! i = existing \<longrightarrow>
            Node.name (db' ! i) = Node.name existing \<and>
            Node.id' (db' ! i) = Node.id' existing \<and>
            Node.fingerprint (db' ! i) = Node.fingerprint existing \<and>
            Node.registered_at (db' ! i) = Node.registered_at existing) \<and>
         (\<forall>r. res = Inr r \<longrightarrow>
            Node.name r = Node.name existing \<and>
            Node.id' r = Node.id' existing \<and>
            Node.fingerprint r = Node.fingerprint existing \<and>
            Node.registered_at r = Node.registered_at existing)"
proof (cases "filter (\<lambda>n. Node.fingerprint n = NodeCreate.fingerprint node) db"
        rule: scalar_one_or_none.cases)
  case 1
  with mem fp show ?thesis by (simp add: filter_empty_conv)
next
  case (2 x)
  from mem fp
  have "existing \<in> set (filter (\<lambda>n. Node.fingerprint n = NodeCreate.fingerprint node) db)"
    by simp
  with 2 have "x = existing" by simp
  with 2 have one: "filter (\<lambda>n. Node.fingerprint n = NodeCreate.fingerprint node) db = [existing]"
    by simp
  have written: "\<exists>obj. res = Inr obj \<and> db' = db_update obj db \<and>
               Node.name obj = Node.name existing \<and> Node.id' obj = Node.id' existing \<and>
               Node.fingerprint obj = Node.fingerprint existing \<and>
               Node.registered_at obj = Node.registered_at existing"
    if "res \<noteq> Inl AttributeError \<or> db' \<noteq> db"
  proof (cases "node_metadata existing")
    case None
    show ?thesis
    proof (cases "NodeCreate.metadata node = Map.empty")
      case True
      with one None call show ?thesis by (auto simp: create_node_null_empty)
    next
      case False
      with one None call that show ?thesis by (auto simp: create_node_null_raises)
    qed
  next
    case (Some m)
    with one call show ?thesis by (auto simp: create_node_existing)
  qed
  show ?thesis
  proof (cases "res = Inl AttributeError \<and> db' = db")
    case True
    then show ?thesis by simp
  next
    case False
    with written obtain obj where obj: "res = Inr obj" "db' = db_update obj db"
      "Node.name obj = Node.name existing" "Node.id' obj = Node.id' existing"
      "Node.fingerprint obj = Node.fingerprint existing"
      "Node.registered_at obj = Node.registered_at existing"
      by blast
    from db_update_nth [OF ids mem obj(4)] obj show ?thesis
      by (simp add: length_db_update)
  qed
next
  case (3 x y zs)
  with call show ?thesis by (auto simp: create_node_several)
qed

theorem re_registration_frame_witness:
  "distinct (map Node.id' [row1, row2]) \<and>
   Node.fingerprint row1 = NodeCreate.fingerprint fp1_second \<and>
   create_node 30 ''id3'' fp1_second [row1, row2] = (Inr row1_merged, [row1_merged, row2]) \<and>
   NodeCreate.name fp1_second \<noteq> Node.name row1 \<and>
   Node.name row1_merged = Node.name row1 \<and>
   Node.id' row1_merged = Node.id' row1 \<and>
   Node.fingerprint row1_merged = Node.fingerprint row1 \<and>
   Node.registered_at row1_merged = Node.registered_at row1 \<and>
   [row1_merged, row2] ! 1 = [row1, row2] ! 1"
proof -
  have ids: "distinct (map Node.id' [row1, row2])"
    by (simp add: row1_def row2_def)
  have mem: "row1 \<in> set [row1, row2]" by simp
  have fp: "Node.fingerprint row1 = NodeCreate.fingerprint fp1_second"
    by (simp add: row1_def fp1_second_def)
  have call: "create_node 30 ''id3'' fp1_second [row1, row2]
      = (Inr row1_merged, [row1_merged, row2])"
    by (simp add: create_node_def db_update_def Let_def row1_def row2_def fp1_second_def
        row1_merged_def)
  have renamed: "NodeCreate.name fp1_second \<noteq> Node.name row1"
    by (simp add: row1_def fp1_second_def)
  from re_registration_frame [OF ids mem fp call] ids fp call renamed
  show ?thesis by simp
qed

subsection \<open>Runs\<close>

lemma delete_node_subset: "set (snd (delete_node node_id db)) \<subseteq> set db"
  by (cases "filter (\<lambda>n. Node.id' n = node_id) db" rule: scalar_one_or_none.cases)
     (auto simp: delete_node_def db_delete_def)

lemma delete_node_keys:
  assumes "distinct (map f db)"
  shows "distinct (map f (snd (delete_node node_id db)))"
  using assms
  by (cases "filter (\<lambda>n. Node.id' n = node_id) db" rule: scalar_one_or_none.cases)
     (simp_all add: delete_node_def db_delete_def distinct_map_filter)

text \<open>Identifiers and fingerprints each name one row, and a registration keeps it so.\<close>

lemma create_node_keys:
  assumes ids: "distinct (map Node.id' db)" and fps: "distinct (map Node.fingerprint db)"
    and fresh: "filter (\<lambda>n. Node.fingerprint n = NodeCreate.fingerprint node) db = []
                  \<longrightarrow> new_id \<notin> set (map Node.id' db)"
  shows "distinct (map Node.id' (snd (create_node now new_id node db))) \<and>
         distinct (map Node.fingerprint (snd (create_node now new_id node db)))"
proof (cases "filter (\<lambda>n. Node.fingerprint n = NodeCreate.fingerprint node) db"
        rule: scalar_one_or_none.cases)
  case 1
  then have "\<forall>n \<in> set db. Node.fingerprint n \<noteq> NodeCreate.fingerprint node"
    by (simp add: filter_empty_conv)
  then have "NodeCreate.fingerprint node \<notin> set (map Node.fingerprint db)" by auto
  with 1 ids fps fresh show ?thesis
    by (simp add: create_node_new Node_init_def)
next
  case (2 existing)
  note one = this
  then have mem: "existing \<in> set db" by (rule only_row_member)
  show ?thesis
  proof (cases "node_metadata existing")
    case None
    show ?thesis
    proof (cases "NodeCreate.metadata node = Map.empty")
      case True
      with one None mem ids fps show ?thesis
        by (simp add: create_node_null_empty ids_db_update fingerprints_db_update)
    next
      case False
      with one None ids fps show ?thesis by (simp add: create_node_null_raises)
    qed
  next
    case (Some m)
    with one mem ids fps show ?thesis
      by (simp add: create_node_existing ids_db_update fingerprints_db_update)
  qed
next
  case (3 x y zs)
  with ids fps show ?thesis by (simp add: create_node_several)
qed

lemma run_keys:
  assumes "distinct (map Node.id' db)" and "distinct (map Node.fingerprint db)"
    and "fresh_ids cs db"
  shows "distinct (map Node.id' (run cs db)) \<and> distinct (map Node.fingerprint (run cs db))"
  using assms
proof (induction cs arbitrary: db)
  case Nil
  then show ?case by simp
next
  case (Cons c cs)
  show ?case
  proof (cases c)
    case (Register now new_id node)
    with Cons.prems have "distinct (map Node.id' (step c db)) \<and>
        distinct (map Node.fingerprint (step c db))"
      using create_node_keys [of db node new_id now] by simp
    moreover from Register Cons.prems have "fresh_ids cs (step c db)" by simp
    ultimately show ?thesis using Cons.IH by simp
  next
    case ListNodes
    with Cons.prems Cons.IH [of db] show ?thesis by (simp add: list_nodes_def)
  next
    case (GetById node_id)
    with Cons.prems Cons.IH [of db] show ?thesis by (simp add: get_node_store)
  next
    case (DeleteById node_id)
    with Cons.prems have "distinct (map Node.id' (step c db)) \<and>
        distinct (map Node.fingerprint (step c db))"
      by (simp add: delete_node_keys)
    moreover from DeleteById Cons.prems have "fresh_ids cs (step c db)" by simp
    ultimately show ?thesis using Cons.IH by simp
  qed
qed

lemma scenario_run: "run scenario [] = [row1_merged]"
  by (simp add: scenario_def create_node_def get_node_def delete_node_def list_nodes_def
      db_add_def db_update_def db_delete_def Node_init_def Let_def
      fp1_first_def fp1_second_def fp2_first_def row1_merged_def)

lemma scenario_fresh: "fresh_ids scenario []"
  by (simp add: scenario_def create_node_def get_node_def delete_node_def list_nodes_def
      db_add_def db_update_def db_delete_def Node_init_def Let_def
      fp1_first_def fp1_second_def fp2_first_def)

text \<open>
  C3: in every table reached from the empty one by registrations, listings, lookups and
  deletions handled one after another, at most one row has any given fingerprint. The
  identifier drawn for each new row is one no stored row holds.
\<close>

theorem one_record_per_fingerprint:
  assumes "fresh_ids cs []"
  shows "length (filter (\<lambda>n. Node.fingerprint n = fp) (run cs [])) \<le> 1"
proof -
  from run_keys [of "[]" cs] assms have "distinct (map Node.fingerprint (run cs []))" by simp
  then show ?thesis by (rule distinct_map_count)
qed

theorem one_record_per_fingerprint_witness:
  "fresh_ids scenario [] \<and> run scenario [] = [row1_merged] \<and>
   length (filter (\<lambda>n. Node.fingerprint n = ''fp1'') (run scenario [])) \<le> 1"
  using one_record_per_fingerprint [OF scenario_fresh, of "''fp1''"] scenario_fresh scenario_run
  by simp

subsection \<open>Time stamps\<close>

lemma stamps_ok_mono: "stamps_ok t db \<Longrightarrow> t \<le> t' \<Longrightarrow> stamps_ok t' db"
  by (fastforce simp: stamps_ok_def)

lemma stamps_ok_subset: "stamps_ok t db \<Longrightarrow> set db' \<subseteq> set db \<Longrightarrow> stamps_ok t db'"
  by (auto simp: stamps_ok_def)

lemma stamps_ok_update:
  assumes "stamps_ok t db" and "t \<le> now" and "existing \<in> set db"
    and "Node.registered_at obj = Node.registered_at existing" and "Node.last_seen obj = now"
  shows "stamps_ok now (db_update obj db)"
proof -
  from assms(1,2) have ok: "stamps_ok now db" by (rule stamps_ok_mono)
  from assms(1,3) have "Node.registered_at existing \<le> t"
    by (fastforce simp: stamps_ok_def)
  with assms(2,4,5)
  have "Node.registered_at obj \<le> Node.last_seen obj \<and> Node.last_seen obj \<le> now"
    by simp
  with ok show ?thesis
    using set_db_update [of obj db] by (auto simp: stamps_ok_def)
qed

lemma create_node_stamps:
  assumes ok: "stamps_ok t db" and le: "t \<le> now"
  shows "stamps_ok now (snd (create_node now new_id node db))"
proof (cases "filter (\<lambda>n. Node.fingerprint n = NodeCreate.fingerprint node) db"
        rule: scalar_one_or_none.cases)
  case 1
  from ok le have "stamps_ok now db" by (rule stamps_ok_mono)
  with 1 show ?thesis
    by (simp add: create_node_new Node_init_def stamps_ok_def)
next
  case (2 existing)
  note one = this
  then have mem: "existing \<in> set db" by (rule only_row_member)
  show ?thesis
  proof (cases "node_metadata existing")
    case None
    show ?thesis
    proof (cases "NodeCreate.metadata node = Map.empty")
      case True
      with one None show ?thesis
        using stamps_ok_update [OF ok le mem] by (simp add: create_node_null_empty)
    next
      case False
      with one None show ?thesis
        using stamps_ok_mono [OF ok le] by (simp add: create_node_null_raises)
    qed
  next
    case (Some m)
    with one show ?thesis
      using stamps_ok_update [OF ok le mem] by (simp add: create_node_existing)
  qed
next
  case (3 x y zs)
  then show ?thesis
    using stamps_ok_mono [OF ok le] by (simp add: create_node_several)
qed

lemma run_stamps:
  assumes "stamps_ok t db" and "sorted (t # clock cs)"
  shows "\<exists>t'. stamps_ok t' (run cs db)"
  using assms
proof (induction cs arbitrary: t db)
  case Nil
  then show ?case by auto
next
  case (Cons c cs)
  show ?case
  proof (cases c)
    case (Register now new_id node)
    with Cons.prems have "t \<le> now" and "sorted (now # clock cs)" by simp_all
    moreover from \<open>t \<le> now\<close> Cons.prems(1) Register have "stamps_ok now (step c db)"
      by (simp add: create_node_stamps)
    ultimately show ?thesis using Cons.IH [of now "step c db"] by simp
  next
    case ListNodes
    with Cons.prems Cons.IH [of t db] show ?thesis by (simp add: list_nodes_def)
  next
    case (GetById node_id)
    with Cons.prems Cons.IH [of t db] show ?thesis by (simp add: get_node_store)
  next
    case (DeleteById node_id)
    with Cons.prems have "stamps_ok t (step c db)"
      using stamps_ok_subset [OF _ delete_node_subset] by simp
    with DeleteById Cons.prems show ?thesis using Cons.IH [of t "step c db"] by simp
  qed
qed

lemma scenario_clock: "sorted (clock scenario)"
  by (simp add: scenario_def)

text \<open>
  C7: when the clock readings of a run do not decrease, every row of the table the run
  reaches from the empty one has \<open>registered_at\<close> no later than \<open>last_seen\<close>.
\<close>

theorem registered_before_last_seen:
  fixes cs :: "'v call list"
  assumes "sorted (clock cs)"
  shows "\<forall>n \<in> set (run cs []). Node.registered_at n \<le> Node.last_seen n"
proof -
  obtain t0 where t0: "sorted (t0 # clock cs)"
  proof (cases "clock cs")
    case Nil
    then have "sorted (0 # clock cs)" by simp
    then show ?thesis by (rule that)
  next
    case (Cons a as)
    with assms have "sorted (a # clock cs)" by simp
    then show ?thesis by (rule that)
  qed
  have "stamps_ok t0 ([] :: 'v store)" by (simp add: stamps_ok_def)
  from run_stamps [OF this t0] show ?thesis by (auto simp: stamps_ok_def)
qed

theorem registered_before_last_seen_witness:
  "sorted (clock scenario) \<and> run scenario [] = [row1_merged] \<and>
   Node.registered_at row1_merged = 10 \<and> Node.last_seen row1_merged = 30 \<and>
   Node.registered_at row1_merged \<le> Node.last_seen row1_merged"
  using registered_before_last_seen [OF scenario_clock] scenario_clock scenario_run
  by (simp add: row1_merged_def)

subsection \<open>Listing\<close>

lemma register_all_new:
  assumes "distinct (map (\<lambda>(now, new_id, node). NodeCreate.fingerprint node) regs)"
    and "\<forall>n \<in> set db. Node.fingerprint n
           \<notin> set (map (\<lambda>(now, new_id, node). NodeCreate.fingerprint node) regs)"
  shows "register_all regs db = (map (Inr \<circ> new_row) regs, db @ map new_row regs)"
  using assms
proof (induction regs arbitrary: db)
  case Nil
  then show ?case by simp
next
  case (Cons reg regs)
  obtain now new_id node where reg: "reg = (now, new_id, node)"
    by (cases reg) auto
  from Cons.prems(2) reg
  have "filter (\<lambda>n. Node.fingerprint n = NodeCreate.fingerprint node) db = []"
    by (auto simp: filter_empty_conv)
  then have first: "create_node now new_id node db = (Inr (new_row reg), db @ [new_row reg])"
    by (simp add: create_node_new new_row_def reg)
  have "Node.fingerprint (new_row reg) = NodeCreate.fingerprint node"
    by (simp add: new_row_def reg Node_init_def)
  with Cons.prems reg
  have others: "\<forall>n \<in> set (db @ [new_row reg]). Node.fingerprint n
          \<notin> set (map (\<lambda>(now, new_id, node). NodeCreate.fingerprint node) regs)"
    by auto
  from Cons.prems(1)
  have "distinct (map (\<lambda>(now, new_id, node). NodeCreate.fingerprint node) regs)" by simp
  from this others have "register_all regs (db @ [new_row reg])
      = (map (Inr \<circ> new_row) regs, (db @ [new_row reg]) @ map new_row regs)"
    by (rule Cons.IH)
  with first show ?case by (simp add: reg)
qed

lemma new_row_same_record: "same_record (to_response (new_row reg)) (new_row reg)"
  by (cases reg) (simp add: same_record_def to_response_def new_row_def Node_init_def)

text \<open>
  C8: after registrations under pairwise distinct fingerprints, starting from the empty
  table, \<open>list_nodes\<close> returns as many records as there were registrations, the \<open>i\<close>-th one
  carrying the record the \<open>i\<close>-th registration returned. On any table \<open>list_nodes\<close> returns
  every row, serialised, with the empty mapping where the metadata column holds none.
\<close>

theorem list_after_registrations:
  assumes "distinct (map (\<lambda>(now, new_id, node). NodeCreate.fingerprint node) regs)"
    and "register_all regs [] = (results, db)"
  shows "length (fst (list_nodes db)) = length regs \<and>
         (\<forall>i < length regs. \<exists>r. results ! i = Inr r \<and> same_record (fst (list_nodes db) ! i) r) \<and>
         length (fst (list_nodes db2)) = length db2 \<and>
         (\<forall>i < length db2. serialises (fst (list_nodes db2) ! i) (db2 ! i))"
proof -
  from assms(1) have "register_all regs [] = (map (Inr \<circ> new_row) regs, [] @ map new_row regs)"
    by (rule register_all_new) simp
  with assms(2) have res: "results = map (Inr \<circ> new_row) regs" and db: "db = map new_row regs"
    by simp_all
  have "length (fst (list_nodes db)) = length regs \<and>
         (\<forall>i < length regs. \<exists>r. results ! i = Inr r \<and> same_record (fst (list_nodes db) ! i) r)"
    by (simp add: res db list_nodes_def new_row_same_record)
  moreover have "length (fst (list_nodes db2)) = length db2 \<and>
         (\<forall>i < length db2. serialises (fst (list_nodes db2) ! i) (db2 ! i))"
    by (simp add: list_nodes_def to_response_serialises)
  ultimately show ?thesis by simp
qed

theorem list_after_registrations_witness:
  "distinct (map (\<lambda>(now, new_id, node). NodeCreate.fingerprint node)
      [(10, ''id1'', fp1_first), (20, ''id2'', fp2_first)]) \<and>
   register_all [(10, ''id1'', fp1_first), (20, ''id2'', fp2_first)] []
     = ([Inr row1, Inr row2], [row1, row2]) \<and>
   length (fst (list_nodes [row1, row2])) = 2 \<and>
   same_record (fst (list_nodes [row1, row2]) ! 0) row1 \<and>
   same_record (fst (list_nodes [row1, row2]) ! 1) row2 \<and>
   serialises (fst (list_nodes [null_row]) ! 0) null_row \<and>
   NodeResponse.metadata (fst (list_nodes [null_row]) ! 0) = Map.empty"
proof -
  have fps: "distinct (map (\<lambda>(now, new_id, node). NodeCreate.fingerprint node)
      [(10, ''id1'', fp1_first), (20, ''id2'', fp2_first :: string NodeCreate)])"
    by (simp add: fp1_first_def fp2_first_def)
  have regs: "register_all [(10, ''id1'', fp1_first), (20, ''id2'', fp2_first)] []
     = ([Inr row1, Inr row2], [row1, row2])"
    by (simp add: create_node_def db_add_def Node_init_def Let_def
        fp1_first_def fp2_first_def row1_def row2_def)
  have null: "NodeResponse.metadata (fst (list_nodes [null_row]) ! 0) = Map.empty"
    by (simp add: list_nodes_def to_response_def null_row_def)
  note listed = list_after_registrations [OF fps regs, of "[null_row]"]
  from listed have len: "length (fst (list_nodes [row1, row2])) = 2"
    by simp
  from listed have bare: "serialises (fst (list_nodes [null_row]) ! 0) null_row"
    by simp
  from listed have each: "\<exists>r. ([Inr row1, Inr row2] :: (error + string Node) list) ! i = Inr r \<and>
                 same_record (fst (list_nodes [row1, row2]) ! i) r" if "i < Suc (Suc 0)" for i
    using that by simp
  from each [of 0] each [of "Suc 0"]
  have "same_record (fst (list_nodes [row1, row2]) ! 0) row1"
    and "same_record (fst (list_nodes [row1, row2]) ! 1) row2"
    by simp_all
  with fps regs null len bare show ?thesis by simp
qed

end
